theory Spec2Isabelle
  imports Complex_Main "HOL-Library.Word" "HOL-Library.Sublist"
begin

section \<open>OCR text extraction service: a shallow embedding of \<open>main.py\<close>\<close>

text \<open>
  The service is one FastAPI module. Its two helper functions, the endpoints
  \<open>/health\<close> and \<open>/extract-text\<close> and its error handler are embedded here as HOL
  functions:
  \<^item> the module-level handle \<open>vision_client\<close>, set once by \<open>lifespan\<close>, is an explicit
    argument of every function that reads it (\<open>None\<close> when initialisation failed);
  \<^item> \<open>raise HTTPException(...)\<close> is the left injection of a sum type;
  \<^item> the outbound call \<open>vision_client.text_detection\<close> is recorded in a trace: every
    function that may reach it returns the list of images sent to the provider next to
    its result;
  \<^item> the two readings of \<open>time.time()\<close> in the handler are arguments.
  Python's \<open>str\<close> is \<open>string\<close>, one \<open>char\<close> per code point (code points below 256);
  \<open>bytes\<close> is a list of 8-bit words; \<open>float\<close> values are modelled by \<open>real\<close>, without
  rounding.
\<close>

subsection \<open>Constants\<close>

definition MAX_FILE_SIZE :: nat where
  "MAX_FILE_SIZE = 10 * 1024 * 1024"

definition ALLOWED_CONTENT_TYPES :: "string list" where
  "ALLOWED_CONTENT_TYPES = [''image/jpeg'', ''image/jpg'']"

definition ALLOWED_EXTENSIONS :: "string list" where
  "ALLOWED_EXTENSIONS = [''.jpg'', ''.jpeg'']"

subsection \<open>Data\<close>

type_synonym bytes = "8 word list"

text \<open>The framework's \<open>UploadFile\<close>: the declared content type and filename of the
  multipart part (either may be absent) and the bytes that \<open>await image.read()\<close> yields.\<close>

record UploadFile =
  content_type :: "string option"
  filename :: "string option"
  content :: bytes

record HTTPException =
  status_code :: nat
  detail :: string

record MetadataModel =
  meta_filename :: "string option"
  file_size_bytes :: int
  meta_content_type :: "string option"

record SuccessResponseModel =
  success :: bool
  text' :: string
  confidence :: real
  processing_time_ms :: int
  metadata :: MetadataModel

record ErrorResponseModel =
  err_success :: bool
  err_error :: string
  err_detail :: string
  err_processing_time_ms :: int

record HealthResponseModel =
  status :: string
  vision_api :: string
  timestamp :: real

text \<open>The provider's side: an annotation carries a \<open>description\<close>, a response carries
  \<open>error.message\<close> and the list \<open>text_annotations\<close>, and an initialised client is the
  operation \<open>text_detection\<close>.\<close>

record EntityAnnotation =
  description :: string

record AnnotateImageResponse =
  error_message :: string
  text_annotations :: "EntityAnnotation list"

record ImageAnnotatorClient =
  text_detection :: "bytes \<Rightarrow> AnnotateImageResponse"

type_synonym 'a traced = "bytes list \<times> 'a"

subsection \<open>Library functions used by the validation\<close>

text \<open>\<open>str.lower\<close> on code points below 256: the ASCII capitals and the Latin-1 capitals
  (\<open>0xC0\<close> to \<open>0xDE\<close> without the multiplication sign \<open>0xD7\<close>) move up by 32.\<close>

definition lower_char :: "char \<Rightarrow> char" where
  "lower_char c =
     (let n = (of_char c :: nat)
      in if (65 \<le> n \<and> n \<le> 90) \<or> (192 \<le> n \<and> n \<le> 222 \<and> n \<noteq> 215)
         then char_of (n + 32) else c)"

definition lower :: "string \<Rightarrow> string" where
  "lower s = map lower_char s"

text \<open>\<open>str.rfind\<close> for a one-character needle: the highest index holding it, or \<open>-1\<close>.\<close>

fun rfind :: "string \<Rightarrow> char \<Rightarrow> int" where
  "rfind [] c = - 1"
| "rfind (x # xs) c =
     (let r = rfind xs c
      in if 0 \<le> r then r + 1 else if x = c then 0 else - 1)"

text \<open>
  \<open>os.path.splitext\<close> of \<open>posixpath\<close>, that is \<open>genericpath._splitext(p, '/', None, '.')\<close>:
  \<^verbatim>\<open>
    sepIndex = p.rfind(sep)
    dotIndex = p.rfind(extsep)
    if dotIndex > sepIndex:
        # skip all leading dots
        filenameIndex = sepIndex + 1
        while filenameIndex < dotIndex:
            if p[filenameIndex:filenameIndex+1] != extsep:
                return p[:dotIndex], p[dotIndex:]
            filenameIndex += 1
    return p, p[:0]
  \<close>
  The loop returns \<open>Some\<close> where the source returns from inside it and \<open>None\<close> where it
  falls through. Both indices are non-negative inside the loop, so the slices are
  \<open>take\<close> and \<open>drop\<close>.
\<close>

function splitext_loop :: "string \<Rightarrow> int \<Rightarrow> int \<Rightarrow> (string \<times> string) option" where
  "splitext_loop p filenameIndex dotIndex =
     (if filenameIndex < dotIndex then
        (if take 1 (drop (nat filenameIndex) p) \<noteq> ''.''
         then Some (take (nat dotIndex) p, drop (nat dotIndex) p)
         else splitext_loop p (filenameIndex + 1) dotIndex)
      else None)"
  by pat_completeness auto
termination
  by (relation "measure (\<lambda>(p, i, d). nat (d - i))") auto

declare splitext_loop.simps [simp del]

definition splitext :: "string \<Rightarrow> string \<times> string" where
  "splitext p =
     (let sepIndex = rfind p CHR ''/'';
          dotIndex = rfind p CHR ''.''
      in case (if dotIndex > sepIndex then splitext_loop p (sepIndex + 1) dotIndex else None) of
           Some r \<Rightarrow> r
         | None \<Rightarrow> (p, []))"

text \<open>An f-string field of an \<open>Optional[str]\<close> prints \<open>None\<close> for the absent value.\<close>

definition format_optional :: "string option \<Rightarrow> string" where
  "format_optional x = (case x of None \<Rightarrow> ''None'' | Some s \<Rightarrow> s)"

text \<open>\<open>int(x)\<close> on a float truncates towards zero.\<close>

definition py_int :: "real \<Rightarrow> int" where
  "py_int x = (if 0 \<le> x then \<lfloor>x\<rfloor> else \<lceil>x\<rceil>)"

subsection \<open>Helper functions\<close>

definition validate_image :: "UploadFile \<Rightarrow> HTTPException + unit" where
  "validate_image file =
     (if content_type file \<notin> set (map Some ALLOWED_CONTENT_TYPES) then
        Inl \<lparr>status_code = 400,
             detail = ''Invalid file format. Only JPG/JPEG images are supported. ''
                      @ ''Received: '' @ format_optional (content_type file)\<rparr>
      else case filename file of
        None \<Rightarrow> Inl \<lparr>status_code = 400, detail = ''Filename is required''\<rparr>
      | Some name \<Rightarrow>
          if name = [] then Inl \<lparr>status_code = 400, detail = ''Filename is required''\<rparr>
          else
            let extension = lower (snd (splitext name))
            in if extension \<notin> set ALLOWED_EXTENSIONS then
                 Inl \<lparr>status_code = 400,
                      detail = ''Invalid file extension. Only .jpg and .jpeg are supported. ''
                               @ ''Received: '' @ extension\<rparr>
               else Inr ())"

definition extract_text_from_image ::
    "ImageAnnotatorClient option \<Rightarrow> bytes \<Rightarrow> (HTTPException + string \<times> real) traced" where
  "extract_text_from_image vision_client image_content =
     (case vision_client of
        None \<Rightarrow> ([], Inl \<lparr>status_code = 503, detail = ''Vision API service unavailable''\<rparr>)
      | Some client \<Rightarrow>
          if image_content = [] then
            ([], Inl \<lparr>status_code = 400, detail = ''Empty image content''\<rparr>)
          else
            let response = text_detection client image_content
            in if error_message response \<noteq> [] then
                 ([image_content],
                  Inl \<lparr>status_code = 500, detail = ''Failed to process image with Vision API''\<rparr>)
               else (case text_annotations response of
                 [] \<Rightarrow> ([image_content], Inr ([], 0))
               | first # _ \<Rightarrow>
                   let extracted_text = description first;
                       confidence = (if extracted_text \<noteq> [] then 0.95 else 0)
                   in ([image_content], Inr (extracted_text, confidence))))"

subsection \<open>Endpoints\<close>

definition health :: "ImageAnnotatorClient option \<Rightarrow> real \<Rightarrow> HealthResponseModel" where
  "health vision_client now =
     (let vision_status = (if vision_client \<noteq> None then ''healthy'' else ''unavailable'')
      in \<lparr>status = ''healthy'', vision_api = vision_status, timestamp = now\<rparr>)"

definition extract_text ::
    "ImageAnnotatorClient option \<Rightarrow> real \<Rightarrow> real \<Rightarrow> UploadFile
       \<Rightarrow> (HTTPException + SuccessResponseModel) traced" where
  "extract_text vision_client start_time end_time upload =
     (case validate_image upload of
        Inl e \<Rightarrow> ([], Inl e)
      | Inr _ \<Rightarrow>
          let image_content = content upload;
              file_size = length image_content
          in if file_size > MAX_FILE_SIZE then
               ([], Inl \<lparr>status_code = 413, detail = ''File too large. Maximum size is 10MB''\<rparr>)
             else if file_size = 0 then
               ([], Inl \<lparr>status_code = 400, detail = ''Empty file uploaded''\<rparr>)
             else (case extract_text_from_image vision_client image_content of
               (calls, Inl e) \<Rightarrow> (calls, Inl e)
             | (calls, Inr (extracted_text, conf)) \<Rightarrow>
                 (calls,
                  Inr \<lparr>success = True,
                       text' = extracted_text,
                       confidence = conf,
                       processing_time_ms = py_int ((end_time - start_time) * 1000),
                       metadata = \<lparr>meta_filename = filename upload,
                                   file_size_bytes = int file_size,
                                   meta_content_type = content_type upload\<rparr>\<rparr>)))"

subsection \<open>Error handlers and the HTTP response\<close>

datatype JSONBody =
    SuccessBody SuccessResponseModel
  | ErrorBody ErrorResponseModel
  | DetailBody string

record HTTPResponse =
  http_status :: nat
  body :: JSONBody

definition payload_too_large_handler :: "HTTPException \<Rightarrow> HTTPResponse" where
  "payload_too_large_handler exc =
     (let error_response = \<lparr>err_success = False,
                             err_error = ''Payload too large'',
                             err_detail = ''File size exceeds 10MB limit'',
                             err_processing_time_ms = 0\<rparr>
      in \<lparr>http_status = 413, body = ErrorBody error_response\<rparr>)"

text \<open>The framework's part. An \<open>HTTPException\<close> goes to the handler registered for its
  status code when there is one (the module registers one, for 413), and to FastAPI's
  default handler otherwise, which answers with the exception's status code and the body
  \<^verbatim>\<open>{"detail": exc.detail}\<close>. A returned model is answered with status 200.\<close>

definition http_exception_handler :: "HTTPException \<Rightarrow> HTTPResponse" where
  "http_exception_handler exc = \<lparr>http_status = status_code exc, body = DetailBody (detail exc)\<rparr>"

definition handle_exception :: "HTTPException \<Rightarrow> HTTPResponse" where
  "handle_exception exc =
     (if status_code exc = 413 then payload_too_large_handler exc
      else http_exception_handler exc)"

definition post_extract_text ::
    "ImageAnnotatorClient option \<Rightarrow> real \<Rightarrow> real \<Rightarrow> UploadFile \<Rightarrow> HTTPResponse" where
  "post_extract_text vision_client start_time end_time upload =
     (case snd (extract_text vision_client start_time end_time upload) of
        Inl exc \<Rightarrow> handle_exception exc
      | Inr model \<Rightarrow> \<lparr>http_status = 200, body = SuccessBody model\<rparr>)"

subsection \<open>The validation order of the specification\<close>

text \<open>
  Section 4.1 of the specification in its own words: five checks, tried in this order,
  each with an error of its own; the first check that fails decides. The errors are the
  values of the source's \<open>raise\<close> statements. The extension that a check reads is the
  lower-cased extension of the declared filename.
\<close>

datatype validation_check =
    UnsupportedContentType
  | MissingFilename
  | UnsupportedExtension
  | OversizedPayload
  | EmptyPayload

definition spec_validation_order :: "validation_check list" where
  "spec_validation_order =
     [UnsupportedContentType, MissingFilename, UnsupportedExtension, OversizedPayload,
      EmptyPayload]"

definition declared_extension :: "UploadFile \<Rightarrow> string" where
  "declared_extension f =
     (case filename f of None \<Rightarrow> [] | Some name \<Rightarrow> lower (snd (splitext name)))"

fun spec_check_fails :: "validation_check \<Rightarrow> UploadFile \<Rightarrow> bool" where
  "spec_check_fails UnsupportedContentType f =
     (content_type f \<noteq> Some ''image/jpeg'' \<and> content_type f \<noteq> Some ''image/jpg'')"
| "spec_check_fails MissingFilename f = (filename f = None \<or> filename f = Some [])"
| "spec_check_fails UnsupportedExtension f =
     (declared_extension f \<noteq> ''.jpg'' \<and> declared_extension f \<noteq> ''.jpeg'')"
| "spec_check_fails OversizedPayload f = (10 * 1024 * 1024 < length (content f))"
| "spec_check_fails EmptyPayload f = (length (content f) = 0)"

definition spec_first_failing_check :: "UploadFile \<Rightarrow> validation_check option" where
  "spec_first_failing_check f = find (\<lambda>c. spec_check_fails c f) spec_validation_order"

fun check_error :: "validation_check \<Rightarrow> UploadFile \<Rightarrow> HTTPException" where
  "check_error UnsupportedContentType f =
     \<lparr>status_code = 400,
      detail = ''Invalid file format. Only JPG/JPEG images are supported. ''
               @ ''Received: '' @ format_optional (content_type f)\<rparr>"
| "check_error MissingFilename f = \<lparr>status_code = 400, detail = ''Filename is required''\<rparr>"
| "check_error UnsupportedExtension f =
     \<lparr>status_code = 400,
      detail = ''Invalid file extension. Only .jpg and .jpeg are supported. ''
               @ ''Received: '' @ declared_extension f\<rparr>"
| "check_error OversizedPayload f =
     \<lparr>status_code = 413, detail = ''File too large. Maximum size is 10MB''\<rparr>"
| "check_error EmptyPayload f = \<lparr>status_code = 400, detail = ''Empty file uploaded''\<rparr>"

text \<open>A filename with its extension, as \<open>os.path.splitext\<close> reads it, in lower case.\<close>

definition lowercase_extension :: "string \<Rightarrow> string" where
  "lowercase_extension name = fst (splitext name) @ lower (snd (splitext name))"

subsection \<open>Fixtures\<close>

text \<open>Concrete providers and uploads. \<open>mock_client\<close>, \<open>failing_client\<close>, \<open>test_jpg\<close>,
  \<open>empty_jpg\<close>, \<open>large_jpg\<close> and \<open>test_png\<close> follow the repository's test module (with a
  four-byte image for its sample JPEG); \<open>blank_client\<close> answers with one annotation whose description is empty,
  \<open>max_jpg\<close> has exactly \<open>MAX_FILE_SIZE\<close> bytes, and \<open>bad_upload\<close> fails several checks
  at once.\<close>

definition mock_client :: ImageAnnotatorClient where
  "mock_client = \<lparr>text_detection = (\<lambda>_. \<lparr>error_message = [],
       text_annotations = [\<lparr>description = ''Hello World''\<rparr>]\<rparr>)\<rparr>"

definition test_jpg :: UploadFile where
  "test_jpg = \<lparr>content_type = Some ''image/jpeg'', filename = Some ''test.jpg'',
               content = [0xFF, 0xD8, 0xFF, 0xD9]\<rparr>"

definition blank_client :: ImageAnnotatorClient where
  "blank_client = \<lparr>text_detection = (\<lambda>_. \<lparr>error_message = [],
       text_annotations = [\<lparr>description = []\<rparr>]\<rparr>)\<rparr>"

definition failing_client :: ImageAnnotatorClient where
  "failing_client = \<lparr>text_detection = (\<lambda>_. \<lparr>error_message = ''Some API error'',
       text_annotations = []\<rparr>)\<rparr>"

definition max_jpg :: UploadFile where
  "max_jpg = \<lparr>content_type = Some ''image/jpeg'', filename = Some ''test.jpg'',
              content = replicate (10 * 1024 * 1024) 0xFF\<rparr>"

definition large_jpg :: UploadFile where
  "large_jpg = \<lparr>content_type = Some ''image/jpeg'', filename = Some ''test.jpg'',
                content = replicate (10 * 1024 * 1024 + 1) 0xFF\<rparr>"

definition empty_jpg :: UploadFile where
  "empty_jpg = \<lparr>content_type = Some ''image/jpeg'', filename = Some ''test.jpg'',
                content = []\<rparr>"

definition test_png :: UploadFile where
  "test_png = \<lparr>content_type = Some ''image/png'', filename = Some ''test.png'',
               content = [0x66, 0x61, 0x6B, 0x65, 0x70, 0x6E, 0x67]\<rparr>"

definition bad_upload :: UploadFile where
  "bad_upload = \<lparr>content_type = Some ''image/png'', filename = Some [], content = []\<rparr>"

section \<open>Properties\<close>

subsection \<open>Validation and extraction, step by step\<close>

lemma splitext_Nil: "splitext [] = ([], [])"
  by (simp add: splitext_def)

lemma validate_image_accepts:
  assumes "content_type file = Some ''image/jpeg'' \<or> content_type file = Some ''image/jpg''"
    and "filename file = Some name"
    and "lower (snd (splitext name)) = ''.jpg'' \<or> lower (snd (splitext name)) = ''.jpeg''"
  shows "validate_image file = Inr ()"
proof -
  have "name \<noteq> []"
    using assms(3) by (auto simp: splitext_Nil lower_def)
  with assms show ?thesis
    by (auto simp: validate_image_def ALLOWED_CONTENT_TYPES_def ALLOWED_EXTENSIONS_def)
qed

lemma extract_text_from_image_no_error:
  assumes "image_content \<noteq> []"
    and "error_message (text_detection client image_content) = []"
  shows "\<exists>r. extract_text_from_image (Some client) image_content = ([image_content], Inr r)"
  using assms
  by (simp add: extract_text_from_image_def Let_def split: list.split)

subsection \<open>The success path\<close>

text \<open>
  C1. An upload whose declared content type is a JPEG type, whose filename has the
  extension \<open>.jpg\<close> or \<open>.jpeg\<close> (as \<open>os.path.splitext\<close> reads it, in any letter case),
  and whose length is above 0 and at most 10MB, sent while the client is initialised and
  the provider's response carries no error, is answered with status 200, \<open>success = True\<close>
  and a metadata object that echoes the declared filename, the byte length and the
  declared content type.
\<close>

theorem extract_text_valid_upload_ok:
  assumes "content_type upload = Some ''image/jpeg'' \<or> content_type upload = Some ''image/jpg''"
    and "filename upload = Some name"
    and "lower (snd (splitext name)) = ''.jpg'' \<or> lower (snd (splitext name)) = ''.jpeg''"
    and "0 < length (content upload)"
    and "length (content upload) \<le> 10 * 1024 * 1024"
    and "error_message (text_detection client (content upload)) = []"
  shows "\<exists>model.
           post_extract_text (Some client) start_time end_time upload
             = \<lparr>http_status = 200, body = SuccessBody model\<rparr>
           \<and> success model = True
           \<and> metadata model = \<lparr>meta_filename = filename upload,
                                 file_size_bytes = int (length (content upload)),
                                 meta_content_type = content_type upload\<rparr>"
proof -
  have v: "validate_image upload = Inr ()"
    using assms(1-3) by (rule validate_image_accepts)
  from assms(4) have ne: "content upload \<noteq> []" by auto
  from extract_text_from_image_no_error [OF ne assms(6)]
  obtain r where r: "extract_text_from_image (Some client) (content upload)
                       = ([content upload], Inr r)" ..
  show ?thesis
    using v r assms(4,5)
    by (cases r) (simp add: post_extract_text_def extract_text_def MAX_FILE_SIZE_def Let_def)
qed

theorem extract_text_valid_upload_ok_witness:
  "(content_type test_jpg = Some ''image/jpeg'' \<or> content_type test_jpg = Some ''image/jpg'')
   \<and> filename test_jpg = Some ''test.jpg''
   \<and> (lower (snd (splitext ''test.jpg'')) = ''.jpg''
        \<or> lower (snd (splitext ''test.jpg'')) = ''.jpeg'')
   \<and> 0 < length (content test_jpg)
   \<and> length (content test_jpg) \<le> 10 * 1024 * 1024
   \<and> error_message (text_detection mock_client (content test_jpg)) = []
   \<and> (\<exists>model.
           post_extract_text (Some mock_client) 0 1 test_jpg
             = \<lparr>http_status = 200, body = SuccessBody model\<rparr>
           \<and> success model = True
           \<and> metadata model = \<lparr>meta_filename = Some ''test.jpg'',
                                 file_size_bytes = 4,
                                 meta_content_type = Some ''image/jpeg''\<rparr>)"
proof -
  have h1: "content_type test_jpg = Some ''image/jpeg''
            \<or> content_type test_jpg = Some ''image/jpg''"
    by (simp add: test_jpg_def)
  have h2: "filename test_jpg = Some ''test.jpg''"
    by (simp add: test_jpg_def)
  have h3: "lower (snd (splitext ''test.jpg'')) = ''.jpg''
            \<or> lower (snd (splitext ''test.jpg'')) = ''.jpeg''"
    by code_simp
  have h4: "0 < length (content test_jpg)"
    by (simp add: test_jpg_def)
  have h5: "length (content test_jpg) \<le> 10 * 1024 * 1024"
    by (simp add: test_jpg_def)
  have h6: "error_message (text_detection mock_client (content test_jpg)) = []"
    by (simp add: mock_client_def)
  have len: "int (length (content test_jpg)) = 4"
    by (simp add: test_jpg_def)
  show ?thesis
    using h1 h2 h3 h4 h5 h6 extract_text_valid_upload_ok [OF h1 h2 h3 h4 h5 h6, of 0 1]
    unfolding len by (simp add: test_jpg_def)
qed

subsection \<open>What the extraction returns\<close>

text \<open>
  C2, as the code has it. For non-empty image bytes, an initialised client and a provider
  response without error: an empty result list gives the text \<open>""\<close> with confidence 0.0;
  a non-empty result list gives the first entry's text, with the placeholder confidence
  0.95 when that text is non-empty and with confidence 0.0 when that text is empty. In both
  cases the provider was sent the image once.
\<close>

theorem extract_text_from_image_result:
  assumes "image_content \<noteq> []"
    and "error_message (text_detection client image_content) = []"
  shows "(text_annotations (text_detection client image_content) = []
            \<longrightarrow> extract_text_from_image (Some client) image_content
                  = ([image_content], Inr ([], 0)))
       \<and> (\<forall>first rest.
            text_annotations (text_detection client image_content) = first # rest
            \<longrightarrow> extract_text_from_image (Some client) image_content
                  = ([image_content],
                     Inr (description first, if description first = [] then 0 else 0.95)))"
  using assms by (simp add: extract_text_from_image_def Let_def)

theorem extract_text_from_image_result_witness:
  "content test_jpg \<noteq> []
   \<and> error_message (text_detection mock_client (content test_jpg)) = []
   \<and> text_annotations (text_detection mock_client (content test_jpg))
       = [\<lparr>description = ''Hello World''\<rparr>]
   \<and> extract_text_from_image (Some mock_client) (content test_jpg)
       = ([content test_jpg], Inr (''Hello World'', 0.95))"
proof -
  have h1: "content test_jpg \<noteq> []"
    by (simp add: test_jpg_def)
  have h2: "error_message (text_detection mock_client (content test_jpg)) = []"
    by (simp add: mock_client_def)
  have h3: "text_annotations (text_detection mock_client (content test_jpg))
              = [\<lparr>description = ''Hello World''\<rparr>]"
    by (simp add: mock_client_def)
  show ?thesis
    using h1 h2 h3 extract_text_from_image_result [OF h1 h2] by simp
qed

text \<open>
  C2 as the spec words it gives every non-empty result list the placeholder confidence.
  A provider whose first annotation has an empty description shows the difference: the
  result list is non-empty, and the confidence returned is 0.0, not 0.95.
\<close>

theorem blank_annotation_confidence_counterexample:
  "[0xFF] \<noteq> ([] :: bytes)
   \<and> error_message (text_detection blank_client [0xFF]) = []
   \<and> text_annotations (text_detection blank_client [0xFF]) = [\<lparr>description = []\<rparr>]
   \<and> snd (extract_text_from_image (Some blank_client) [0xFF])
       \<noteq> Inr (description \<lparr>description = []\<rparr>, 0.95)
   \<and> snd (extract_text_from_image (Some blank_client) [0xFF]) = Inr ([], 0)"
  by (simp add: extract_text_from_image_def blank_client_def)

subsection \<open>The handler once its own guards have passed\<close>

lemma extract_text_accepted:
  assumes "validate_image upload = Inr ()"
    and "0 < length (content upload)"
    and "length (content upload) \<le> 10 * 1024 * 1024"
  shows "extract_text vision_client start_time end_time upload =
           (case extract_text_from_image vision_client (content upload) of
              (calls, Inl e) \<Rightarrow> (calls, Inl e)
            | (calls, Inr (extracted_text, conf)) \<Rightarrow>
                (calls,
                 Inr \<lparr>success = True, text' = extracted_text, confidence = conf,
                      processing_time_ms = py_int ((end_time - start_time) * 1000),
                      metadata = \<lparr>meta_filename = filename upload,
                                  file_size_bytes = int (length (content upload)),
                                  meta_content_type = content_type upload\<rparr>\<rparr>))"
  using assms
  by (simp add: extract_text_def MAX_FILE_SIZE_def Let_def split: prod.split sum.split)

lemma validate_image_test_jpg: "validate_image test_jpg = Inr ()"
  by (rule validate_image_accepts [where name = "''test.jpg''"])
     (simp_all add: test_jpg_def, code_simp)

subsection \<open>Provider errors and the missing client\<close>

text \<open>
  C6. For an upload that passed validation and the size guards, sent to an initialised
  client whose response carries a non-empty error message: the handler raises the 500
  exception, the answer has status 500, and the provider was sent the image exactly once
  (no retry); the outcome is an error, not a success envelope.
\<close>

theorem provider_error_gives_500:
  assumes "validate_image upload = Inr ()"
    and "0 < length (content upload)"
    and "length (content upload) \<le> 10 * 1024 * 1024"
    and "error_message (text_detection client (content upload)) \<noteq> []"
  shows "extract_text (Some client) start_time end_time upload
           = ([content upload],
              Inl \<lparr>status_code = 500, detail = ''Failed to process image with Vision API''\<rparr>)
       \<and> post_extract_text (Some client) start_time end_time upload
           = \<lparr>http_status = 500,
              body = DetailBody ''Failed to process image with Vision API''\<rparr>"
proof -
  from assms(2) have "content upload \<noteq> []" by auto
  with assms(4) have "extract_text_from_image (Some client) (content upload)
      = ([content upload],
         Inl \<lparr>status_code = 500, detail = ''Failed to process image with Vision API''\<rparr>)"
    by (simp add: extract_text_from_image_def Let_def)
  then show ?thesis
    by (simp add: extract_text_accepted [OF assms(1-3)] post_extract_text_def
        handle_exception_def http_exception_handler_def)
qed

theorem provider_error_gives_500_witness:
  "validate_image test_jpg = Inr ()
   \<and> 0 < length (content test_jpg)
   \<and> length (content test_jpg) \<le> 10 * 1024 * 1024
   \<and> error_message (text_detection failing_client (content test_jpg)) \<noteq> []
   \<and> extract_text (Some failing_client) 0 1 test_jpg
       = ([[0xFF, 0xD8, 0xFF, 0xD9]],
          Inl \<lparr>status_code = 500, detail = ''Failed to process image with Vision API''\<rparr>)
   \<and> post_extract_text (Some failing_client) 0 1 test_jpg
       = \<lparr>http_status = 500, body = DetailBody ''Failed to process image with Vision API''\<rparr>"
proof -
  note h1 = validate_image_test_jpg
  have h2: "0 < length (content test_jpg)"
    by (simp add: test_jpg_def)
  have h3: "length (content test_jpg) \<le> 10 * 1024 * 1024"
    by (simp add: test_jpg_def)
  have h4: "error_message (text_detection failing_client (content test_jpg)) \<noteq> []"
    by (simp add: failing_client_def)
  have c: "content test_jpg = [0xFF, 0xD8, 0xFF, 0xD9]"
    by (simp add: test_jpg_def)
  show ?thesis
    using h1 h2 h3 h4 provider_error_gives_500 [OF h1 h2 h3 h4, of 0 1]
    unfolding c by simp
qed

text \<open>
  C7. For an upload that passed validation and the size guards, when the client was never
  initialised: the handler raises the 503 exception whose detail mentions
  \<open>unavailable\<close>, the answer has status 503, and nothing was sent to the provider.
\<close>

theorem uninitialized_client_gives_503:
  assumes "validate_image upload = Inr ()"
    and "0 < length (content upload)"
    and "length (content upload) \<le> 10 * 1024 * 1024"
  shows "extract_text None start_time end_time upload
           = ([], Inl \<lparr>status_code = 503, detail = ''Vision API service unavailable''\<rparr>)
       \<and> post_extract_text None start_time end_time upload
           = \<lparr>http_status = 503, body = DetailBody ''Vision API service unavailable''\<rparr>
       \<and> sublist ''unavailable'' ''Vision API service unavailable''"
proof -
  have "extract_text_from_image None (content upload)
      = ([], Inl \<lparr>status_code = 503, detail = ''Vision API service unavailable''\<rparr>)"
    by (simp add: extract_text_from_image_def)
  moreover have "sublist ''unavailable'' (''Vision API service '' @ ''unavailable'')"
    by (rule sublist_append_leftI)
  ultimately show ?thesis
    by (simp add: extract_text_accepted [OF assms] post_extract_text_def
        handle_exception_def http_exception_handler_def)
qed

theorem uninitialized_client_gives_503_witness:
  "validate_image test_jpg = Inr ()
   \<and> 0 < length (content test_jpg)
   \<and> length (content test_jpg) \<le> 10 * 1024 * 1024
   \<and> extract_text None 0 1 test_jpg
       = ([], Inl \<lparr>status_code = 503, detail = ''Vision API service unavailable''\<rparr>)
   \<and> post_extract_text None 0 1 test_jpg
       = \<lparr>http_status = 503, body = DetailBody ''Vision API service unavailable''\<rparr>"
proof -
  note h1 = validate_image_test_jpg
  have h2: "0 < length (content test_jpg)"
    by (simp add: test_jpg_def)
  have h3: "length (content test_jpg) \<le> 10 * 1024 * 1024"
    by (simp add: test_jpg_def)
  show ?thesis
    using h1 h2 h3 uninitialized_client_gives_503 [OF h1 h2 h3, of 0 1] by simp
qed

subsection \<open>The health endpoint\<close>

text \<open>
  C10. \<open>GET /health\<close> reports the top-level status \<open>healthy\<close> whether or not the client
  is initialised; \<open>vision_api\<close> is \<open>healthy\<close> with a client and \<open>unavailable\<close> without
  one; two answers at the same clock reading differ in \<open>vision_api\<close> at most.
\<close>

theorem health_status:
  "status (health vision_client now) = ''healthy''
   \<and> vision_api (health (Some client) now) = ''healthy''
   \<and> vision_api (health None now) = ''unavailable''
   \<and> health vision_client now
       = (health other_client now)\<lparr>vision_api := vision_api (health vision_client now)\<rparr>"
  by (simp add: health_def)

subsection \<open>The size guards\<close>

lemma extract_text_from_image_status:
  assumes "snd (extract_text_from_image vision_client image_content) = Inl e"
  shows "status_code e = 503 \<or> status_code e = 400 \<or> status_code e = 500"
  using assms
  by (auto simp: extract_text_from_image_def Let_def split: option.splits if_splits list.splits)

lemma extract_text_oversized:
  assumes "validate_image upload = Inr ()"
    and "10 * 1024 * 1024 < length (content upload)"
  shows "extract_text vision_client start_time end_time upload
           = ([], Inl \<lparr>status_code = 413, detail = ''File too large. Maximum size is 10MB''\<rparr>)"
  using assms by (simp add: extract_text_def MAX_FILE_SIZE_def Let_def)

lemma extract_text_empty:
  assumes "validate_image upload = Inr ()"
    and "content upload = []"
  shows "extract_text vision_client start_time end_time upload
           = ([], Inl \<lparr>status_code = 400, detail = ''Empty file uploaded''\<rparr>)"
  using assms by (simp add: extract_text_def MAX_FILE_SIZE_def Let_def)

lemma post_extract_text_status:
  "http_status (post_extract_text vision_client start_time end_time upload)
     = (case snd (extract_text vision_client start_time end_time upload) of
          Inl e \<Rightarrow> status_code e | Inr _ \<Rightarrow> 200)"
  by (simp add: post_extract_text_def handle_exception_def payload_too_large_handler_def
      http_exception_handler_def split: sum.split)

lemma extract_text_accepted_status:
  assumes "validate_image upload = Inr ()"
    and "0 < length (content upload)"
    and "length (content upload) \<le> 10 * 1024 * 1024"
  shows "http_status (post_extract_text vision_client start_time end_time upload) \<noteq> 413"
proof (cases "extract_text_from_image vision_client (content upload)")
  case (Pair calls r)
  show ?thesis
  proof (cases r)
    case (Inl e)
    with Pair extract_text_from_image_status [of vision_client "content upload" e]
    show ?thesis
      by (auto simp: post_extract_text_status extract_text_accepted [OF assms])
  next
    case (Inr v)
    with Pair show ?thesis
      by (simp add: post_extract_text_status extract_text_accepted [OF assms] split: prod.split)
  qed
qed

lemma validate_image_max_jpg: "validate_image max_jpg = Inr ()"
  by (rule validate_image_accepts [where name = "''test.jpg''"])
     (simp_all add: max_jpg_def, code_simp)

lemma validate_image_large_jpg: "validate_image large_jpg = Inr ()"
  by (rule validate_image_accepts [where name = "''test.jpg''"])
     (simp_all add: large_jpg_def, code_simp)

lemma validate_image_empty_jpg: "validate_image empty_jpg = Inr ()"
  by (rule validate_image_accepts [where name = "''test.jpg''"])
     (simp_all add: empty_jpg_def, code_simp)

text \<open>
  C5. For an upload with an accepted content type and extension: a payload of exactly
  \<open>10 * 1024 * 1024\<close> bytes is not answered with 413, and with an initialised client it
  is sent to the provider; every payload of more than \<open>10 * 1024 * 1024\<close> bytes is
  answered with 413; no payload in the interval from 1 byte to 10MB is answered with 413.
\<close>

theorem size_limit_boundary:
  assumes "validate_image upload = Inr ()"
  shows "(length (content upload) = 10 * 1024 * 1024 \<longrightarrow>
            http_status (post_extract_text vision_client start_time end_time upload) \<noteq> 413
            \<and> fst (extract_text (Some client) start_time end_time upload) = [content upload])
       \<and> (10 * 1024 * 1024 < length (content upload) \<longrightarrow>
            http_status (post_extract_text vision_client start_time end_time upload) = 413)
       \<and> (0 < length (content upload) \<and> length (content upload) \<le> 10 * 1024 * 1024 \<longrightarrow>
            http_status (post_extract_text vision_client start_time end_time upload) \<noteq> 413)"
proof (intro conjI impI)
  assume len: "length (content upload) = 10 * 1024 * 1024"
  then have pos: "0 < length (content upload)" and le: "length (content upload) \<le> 10 * 1024 * 1024"
    by simp_all
  show "http_status (post_extract_text vision_client start_time end_time upload) \<noteq> 413"
    using assms pos le by (rule extract_text_accepted_status)
  from pos have "content upload \<noteq> []" by auto
  then have "fst (extract_text_from_image (Some client) (content upload)) = [content upload]"
    by (simp add: extract_text_from_image_def Let_def split: list.split)
  then show "fst (extract_text (Some client) start_time end_time upload) = [content upload]"
    by (auto simp: extract_text_accepted [OF assms pos le] split: prod.split sum.split)
next
  assume "10 * 1024 * 1024 < length (content upload)"
  then show "http_status (post_extract_text vision_client start_time end_time upload) = 413"
    by (simp add: post_extract_text_status extract_text_oversized [OF assms])
next
  assume "0 < length (content upload) \<and> length (content upload) \<le> 10 * 1024 * 1024"
  then show "http_status (post_extract_text vision_client start_time end_time upload) \<noteq> 413"
    using assms by (simp add: extract_text_accepted_status)
qed

theorem size_limit_boundary_witness:
  "validate_image max_jpg = Inr ()
   \<and> length (content max_jpg) = 10 * 1024 * 1024
   \<and> http_status (post_extract_text (Some mock_client) 0 1 max_jpg) \<noteq> 413
   \<and> fst (extract_text (Some mock_client) 0 1 max_jpg) = [content max_jpg]
   \<and> validate_image large_jpg = Inr ()
   \<and> 10 * 1024 * 1024 < length (content large_jpg)
   \<and> http_status (post_extract_text (Some mock_client) 0 1 large_jpg) = 413"
proof -
  have h1: "length (content max_jpg) = 10 * 1024 * 1024"
    by (simp add: max_jpg_def)
  have h2: "10 * 1024 * 1024 < length (content large_jpg)"
    by (simp add: large_jpg_def)
  show ?thesis
    using h1 h2 validate_image_max_jpg validate_image_large_jpg
      size_limit_boundary [OF validate_image_max_jpg, of "Some mock_client" 0 1 mock_client]
      size_limit_boundary [OF validate_image_large_jpg, of "Some mock_client" 0 1 mock_client]
    by simp
qed

subsection \<open>The empty-content guard of the extraction\<close>

lemma validate_image_detail:
  assumes "validate_image upload = Inl e"
  shows "detail e \<noteq> ''Empty image content''"
  using assms
  by (auto simp: validate_image_def Let_def split: if_splits option.splits)

text \<open>
  C8. Called directly with empty bytes and an initialised client, the extraction raises
  400 \<open>Empty image content\<close>. The handler never ends with that exception, whatever the
  upload, the client and the clock: an upload that passed \<open>validate_image\<close> and has no
  bytes is rejected by the handler's own guard with 400 \<open>Empty file uploaded\<close>, before
  the extraction is called.
\<close>

theorem empty_content_guard_unreachable:
  "extract_text_from_image (Some client) []
     = ([], Inl \<lparr>status_code = 400, detail = ''Empty image content''\<rparr>)
   \<and> snd (extract_text vision_client start_time end_time upload)
       \<noteq> Inl \<lparr>status_code = 400, detail = ''Empty image content''\<rparr>
   \<and> (validate_image upload = Inr () \<and> content upload = [] \<longrightarrow>
        extract_text vision_client start_time end_time upload
          = ([], Inl \<lparr>status_code = 400, detail = ''Empty file uploaded''\<rparr>))"
proof (intro conjI impI)
  show "extract_text_from_image (Some client) []
     = ([], Inl \<lparr>status_code = 400, detail = ''Empty image content''\<rparr>)"
    by (simp add: extract_text_from_image_def)
next
  show "snd (extract_text vision_client start_time end_time upload)
       \<noteq> Inl \<lparr>status_code = 400, detail = ''Empty image content''\<rparr>"
  proof (cases "validate_image upload")
    case (Inl e)
    with validate_image_detail [OF Inl] show ?thesis
      by (auto simp: extract_text_def)
  next
    case (Inr u)
    then show ?thesis
      by (auto simp: extract_text_def extract_text_from_image_def Let_def
          split: option.splits list.splits)
  qed
next
  assume "validate_image upload = Inr () \<and> content upload = []"
  then show "extract_text vision_client start_time end_time upload
          = ([], Inl \<lparr>status_code = 400, detail = ''Empty file uploaded''\<rparr>)"
    by (simp add: extract_text_empty)
qed

theorem empty_content_guard_unreachable_witness:
  "validate_image empty_jpg = Inr () \<and> content empty_jpg = []
   \<and> extract_text (Some mock_client) 0 1 empty_jpg
       = ([], Inl \<lparr>status_code = 400, detail = ''Empty file uploaded''\<rparr>)
   \<and> extract_text_from_image (Some mock_client) (content empty_jpg)
       = ([], Inl \<lparr>status_code = 400, detail = ''Empty image content''\<rparr>)"
proof -
  have h: "content empty_jpg = []"
    by (simp add: empty_jpg_def)
  show ?thesis
    using h validate_image_empty_jpg
      empty_content_guard_unreachable [of mock_client "Some mock_client" 0 1 empty_jpg]
    by simp
qed

subsection \<open>The shape of failure responses\<close>

text \<open>Every exception of the handler carries one of the four status codes, and the
  response mirrors it. Only the 413 response is built from \<open>ErrorResponseModel\<close>; the
  others carry the exception's detail alone.\<close>

lemma validate_image_status:
  assumes "validate_image upload = Inl e"
  shows "status_code e = 400"
  using assms
  by (auto simp: validate_image_def Let_def split: if_splits option.splits)

lemma extract_text_status:
  assumes "snd (extract_text vision_client start_time end_time upload) = Inl e"
  shows "status_code e = 400 \<or> status_code e = 413 \<or> status_code e = 500
         \<or> status_code e = 503"
proof (cases "validate_image upload")
  case (Inl e')
  with assms validate_image_status [OF Inl] show ?thesis
    by (simp add: extract_text_def)
next
  case (Inr u)
  show ?thesis
  proof (cases "0 < length (content upload) \<and> length (content upload) \<le> 10 * 1024 * 1024")
    case False
    with assms Inr show ?thesis
      by (auto simp: extract_text_def MAX_FILE_SIZE_def Let_def split: if_splits)
  next
    case True
    with Inr have v: "validate_image upload = Inr ()" and pos: "0 < length (content upload)"
      and le: "length (content upload) \<le> 10 * 1024 * 1024"
      by simp_all
    from assms have "snd (extract_text_from_image vision_client (content upload)) = Inl e"
      by (auto simp: extract_text_accepted [OF v pos le] split: prod.splits sum.splits)
    from extract_text_from_image_status [OF this] show ?thesis
      by auto
  qed
qed

lemma failure_response_shape:
  assumes "snd (extract_text vision_client start_time end_time upload) = Inl e"
  shows "post_extract_text vision_client start_time end_time upload =
           (if status_code e = 413
            then \<lparr>http_status = 413,
                  body = ErrorBody \<lparr>err_success = False, err_error = ''Payload too large'',
                                    err_detail = ''File size exceeds 10MB limit'',
                                    err_processing_time_ms = 0\<rparr>\<rparr>
            else \<lparr>http_status = status_code e, body = DetailBody (detail e)\<rparr>)"
  using assms
  by (simp add: post_extract_text_def handle_exception_def payload_too_large_handler_def
      http_exception_handler_def)

text \<open>
  C3. The specification gives every failure response the envelope of
  \<open>ErrorResponseModel\<close> (\<open>success = False\<close>, an error category, a detail and
  \<open>processing_time_ms = 0\<close>). The test module's PNG upload is answered with status 400
  and the body \<^verbatim>\<open>{"detail": ...}\<close>, without \<open>success\<close>, error category or processing
  time; the oversized upload, whose status has a registered handler, is answered with the
  envelope.
\<close>

theorem failure_body_without_envelope:
  "post_extract_text (Some mock_client) 0 1 test_png
     = \<lparr>http_status = 400,
        body = DetailBody
          ''Invalid file format. Only JPG/JPEG images are supported. Received: image/png''\<rparr>
   \<and> post_extract_text (Some mock_client) 0 1 large_jpg
     = \<lparr>http_status = 413,
        body = ErrorBody \<lparr>err_success = False, err_error = ''Payload too large'',
                          err_detail = ''File size exceeds 10MB limit'',
                          err_processing_time_ms = 0\<rparr>\<rparr>"
proof
  show "post_extract_text (Some mock_client) 0 1 test_png
     = \<lparr>http_status = 400,
        body = DetailBody
          ''Invalid file format. Only JPG/JPEG images are supported. Received: image/png''\<rparr>"
    by (simp add: post_extract_text_def extract_text_def validate_image_def test_png_def
        ALLOWED_CONTENT_TYPES_def format_optional_def handle_exception_def
        http_exception_handler_def)
next
  have "10 * 1024 * 1024 < length (content large_jpg)"
    by (simp add: large_jpg_def)
  with validate_image_large_jpg
  have "extract_text (Some mock_client) 0 1 large_jpg
      = ([], Inl \<lparr>status_code = 413, detail = ''File too large. Maximum size is 10MB''\<rparr>)"
    by (rule extract_text_oversized)
  then show "post_extract_text (Some mock_client) 0 1 large_jpg
     = \<lparr>http_status = 413,
        body = ErrorBody \<lparr>err_success = False, err_error = ''Payload too large'',
                          err_detail = ''File size exceeds 10MB limit'',
                          err_processing_time_ms = 0\<rparr>\<rparr>"
    by (simp add: post_extract_text_def handle_exception_def payload_too_large_handler_def)
qed

subsection \<open>The order of the validation checks\<close>

lemma check_error_distinct:
  "c \<noteq> c' \<Longrightarrow> check_error c f \<noteq> check_error c' f'"
  by (cases c; cases c'; simp)

lemma handle_check_error_distinct:
  "c \<noteq> c' \<Longrightarrow> handle_exception (check_error c f) \<noteq> handle_exception (check_error c' f')"
  by (cases c; cases c';
      simp add: handle_exception_def http_exception_handler_def payload_too_large_handler_def)

lemma spec_first_failing_check_cascade:
  "spec_first_failing_check f =
     (if spec_check_fails UnsupportedContentType f then Some UnsupportedContentType
      else if spec_check_fails MissingFilename f then Some MissingFilename
      else if spec_check_fails UnsupportedExtension f then Some UnsupportedExtension
      else if spec_check_fails OversizedPayload f then Some OversizedPayload
      else if spec_check_fails EmptyPayload f then Some EmptyPayload
      else None)"
  unfolding spec_first_failing_check_def spec_validation_order_def by simp

lemma validate_image_cascade:
  "validate_image f =
     (if spec_check_fails UnsupportedContentType f then Inl (check_error UnsupportedContentType f)
      else if spec_check_fails MissingFilename f then Inl (check_error MissingFilename f)
      else if spec_check_fails UnsupportedExtension f then Inl (check_error UnsupportedExtension f)
      else Inr ())"
  by (auto simp: validate_image_def declared_extension_def ALLOWED_CONTENT_TYPES_def
      ALLOWED_EXTENSIONS_def Let_def split: option.splits)

lemma extract_text_rejects:
  assumes "spec_first_failing_check f = Some c"
  shows "extract_text vision_client start_time end_time f = ([], Inl (check_error c f))"
  using assms
  by (auto simp: spec_first_failing_check_cascade extract_text_def validate_image_cascade
      MAX_FILE_SIZE_def Let_def split: if_splits)

lemma extract_text_from_image_detail:
  assumes "snd (extract_text_from_image vision_client image_content) = Inl e"
  shows "detail e = ''Vision API service unavailable'' \<or> detail e = ''Empty image content''
         \<or> detail e = ''Failed to process image with Vision API''"
  using assms
  by (auto simp: extract_text_from_image_def Let_def split: option.splits if_splits list.splits)

lemma check_error_not_extraction:
  "detail (check_error c f) \<noteq> ''Vision API service unavailable''"
  "detail (check_error c f) \<noteq> ''Empty image content''"
  "detail (check_error c f) \<noteq> ''Failed to process image with Vision API''"
  by (cases c; simp)+

lemma extract_text_passes:
  assumes "spec_first_failing_check f = None"
  shows "snd (extract_text vision_client start_time end_time f) \<noteq> Inl (check_error c f)"
proof -
  from assms have v: "validate_image f = Inr ()"
    and pos: "0 < length (content f)" and le: "length (content f) \<le> 10 * 1024 * 1024"
    by (auto simp: spec_first_failing_check_cascade validate_image_cascade split: if_splits)
  show ?thesis
  proof
    assume a: "snd (extract_text vision_client start_time end_time f) = Inl (check_error c f)"
    then have "snd (extract_text_from_image vision_client (content f)) = Inl (check_error c f)"
      by (auto simp: extract_text_accepted [OF v pos le] split: prod.splits sum.splits)
    from extract_text_from_image_detail [OF this] show False
      by (simp add: check_error_not_extraction)
  qed
qed

lemma check_error_detail_distinct:
  "c \<noteq> c' \<Longrightarrow> detail (check_error c f) \<noteq> detail (check_error c' f')"
  by (cases c; cases c'; simp)

lemma check_error_status:
  "status_code (check_error c f) = (if c = OversizedPayload then 413 else 400)"
  by (cases c) simp_all

text \<open>
  C4, as the code has it. The handler ends with the error of a check exactly when that
  check is the first one to fail in the order unsupported content type, missing filename,
  unsupported extension, oversized payload, empty payload; in that case nothing is sent
  to the provider. One error is returned, never a collection. The error kind, that is
  the status code, is 413 for the oversized payload and 400 for each of the four other
  checks. Different checks have different details, and so different exceptions and
  different responses.
\<close>

theorem validation_first_failing_check:
  "(snd (extract_text vision_client start_time end_time f) = Inl (check_error c f))
     = (spec_first_failing_check f = Some c)
   \<and> (spec_first_failing_check f = Some c \<longrightarrow>
        fst (extract_text vision_client start_time end_time f) = [])
   \<and> status_code (check_error c f) = (if c = OversizedPayload then 413 else 400)
   \<and> (c \<noteq> c' \<longrightarrow>
        detail (check_error c f) \<noteq> detail (check_error c' f')
        \<and> check_error c f \<noteq> check_error c' f'
        \<and> handle_exception (check_error c f) \<noteq> handle_exception (check_error c' f'))"
proof (intro conjI impI)
  show "(snd (extract_text vision_client start_time end_time f) = Inl (check_error c f))
     = (spec_first_failing_check f = Some c)"
  proof (cases "spec_first_failing_check f")
    case None
    then show ?thesis
      by (simp add: extract_text_passes)
  next
    case (Some d)
    then show ?thesis
      using check_error_distinct [of d c f f]
      by (auto simp: extract_text_rejects [OF Some])
  qed
next
  assume "spec_first_failing_check f = Some c"
  then show "fst (extract_text vision_client start_time end_time f) = []"
    by (simp add: extract_text_rejects)
next
  show "status_code (check_error c f) = (if c = OversizedPayload then 413 else 400)"
    by (rule check_error_status)
next
  assume "c \<noteq> c'"
  then show "detail (check_error c f) \<noteq> detail (check_error c' f')"
    by (rule check_error_detail_distinct)
next
  assume "c \<noteq> c'"
  then show "check_error c f \<noteq> check_error c' f'"
    by (rule check_error_distinct)
next
  assume "c \<noteq> c'"
  then show "handle_exception (check_error c f) \<noteq> handle_exception (check_error c' f')"
    by (rule handle_check_error_distinct)
qed

theorem validation_first_failing_check_witness:
  "spec_first_failing_check bad_upload = Some UnsupportedContentType
   \<and> spec_check_fails MissingFilename bad_upload
   \<and> spec_check_fails UnsupportedExtension bad_upload
   \<and> spec_check_fails EmptyPayload bad_upload
   \<and> extract_text (Some mock_client) 0 1 bad_upload
       = ([], Inl \<lparr>status_code = 400,
                   detail = ''Invalid file format. Only JPG/JPEG images are supported. Received: image/png''\<rparr>)
   \<and> UnsupportedContentType \<noteq> EmptyPayload
   \<and> detail (check_error UnsupportedContentType bad_upload)
       \<noteq> detail (check_error EmptyPayload bad_upload)
   \<and> check_error UnsupportedContentType bad_upload \<noteq> check_error EmptyPayload bad_upload"
proof -
  have h: "spec_first_failing_check bad_upload = Some UnsupportedContentType"
    by (simp add: spec_first_failing_check_cascade bad_upload_def)
  have e: "check_error UnsupportedContentType bad_upload
      = \<lparr>status_code = 400,
         detail = ''Invalid file format. Only JPG/JPEG images are supported. Received: image/png''\<rparr>"
    by (simp add: bad_upload_def format_optional_def)
  have fails: "spec_check_fails MissingFilename bad_upload"
    "spec_check_fails UnsupportedExtension bad_upload"
    "spec_check_fails EmptyPayload bad_upload"
    by (simp_all add: bad_upload_def declared_extension_def splitext_Nil lower_def)
  have ne: "UnsupportedContentType \<noteq> EmptyPayload"
    by simp
  from validation_first_failing_check [of "Some mock_client" 0 1 bad_upload
        UnsupportedContentType EmptyPayload bad_upload] h ne
  have r: "snd (extract_text (Some mock_client) 0 1 bad_upload)
             = Inl (check_error UnsupportedContentType bad_upload)"
    and t: "fst (extract_text (Some mock_client) 0 1 bad_upload) = []"
    and d: "detail (check_error UnsupportedContentType bad_upload)
              \<noteq> detail (check_error EmptyPayload bad_upload)"
    and x: "check_error UnsupportedContentType bad_upload \<noteq> check_error EmptyPayload bad_upload"
    by blast+
  from r t have "extract_text (Some mock_client) 0 1 bad_upload
      = ([], Inl (check_error UnsupportedContentType bad_upload))"
    by (cases "extract_text (Some mock_client) 0 1 bad_upload") simp
  with h fails ne d x show ?thesis
    by (simp only: e) simp
qed

text \<open>
  C4 as the specification words it gives each check an error kind of its own. The PNG
  upload fails the content-type check first and the empty JPEG upload fails the
  empty-payload check first: two different checks, and both are answered with the same
  kind, status 400; only the details differ.
\<close>

theorem shared_status_counterexample:
  "spec_first_failing_check test_png = Some UnsupportedContentType
   \<and> spec_first_failing_check empty_jpg = Some EmptyPayload
   \<and> UnsupportedContentType \<noteq> EmptyPayload
   \<and> extract_text (Some mock_client) 0 1 test_png
       = ([], Inl \<lparr>status_code = 400,
                   detail = ''Invalid file format. Only JPG/JPEG images are supported. Received: image/png''\<rparr>)
   \<and> extract_text (Some mock_client) 0 1 empty_jpg
       = ([], Inl \<lparr>status_code = 400, detail = ''Empty file uploaded''\<rparr>)
   \<and> http_status (post_extract_text (Some mock_client) 0 1 test_png)
       = http_status (post_extract_text (Some mock_client) 0 1 empty_jpg)"
proof -
  have p: "spec_first_failing_check test_png = Some UnsupportedContentType"
    by (simp add: spec_first_failing_check_cascade test_png_def)
  have "declared_extension empty_jpg = ''.jpg''"
    unfolding declared_extension_def empty_jpg_def by code_simp
  then have j: "spec_first_failing_check empty_jpg = Some EmptyPayload"
    by (simp add: spec_first_failing_check_cascade) (simp add: empty_jpg_def)
  have ep: "check_error UnsupportedContentType test_png
      = \<lparr>status_code = 400,
         detail = ''Invalid file format. Only JPG/JPEG images are supported. Received: image/png''\<rparr>"
    by (simp add: test_png_def format_optional_def)
  have rp: "extract_text (Some mock_client) 0 1 test_png
      = ([], Inl \<lparr>status_code = 400,
                  detail = ''Invalid file format. Only JPG/JPEG images are supported. Received: image/png''\<rparr>)"
    using extract_text_rejects [OF p, of "Some mock_client" 0 1] by (simp only: ep)
  have rj: "extract_text (Some mock_client) 0 1 empty_jpg
      = ([], Inl \<lparr>status_code = 400, detail = ''Empty file uploaded''\<rparr>)"
    using extract_text_rejects [OF j, of "Some mock_client" 0 1] by simp
  have "http_status (post_extract_text (Some mock_client) 0 1 test_png) = 400"
    "http_status (post_extract_text (Some mock_client) 0 1 empty_jpg) = 400"
    by (simp_all add: post_extract_text_status rp rj)
  with p j rp rj show ?thesis
    by simp
qed

subsection \<open>Lower-casing keeps the separators\<close>

lemma of_char_lower_char:
  "(of_char (lower_char c) :: nat) =
     (let n = of_char c
      in if (65 \<le> n \<and> n \<le> 90) \<or> (192 \<le> n \<and> n \<le> 222 \<and> n \<noteq> 215) then n + 32 else n)"
  by (auto simp: lower_char_def Let_def)

lemma lower_char_dot [simp]: "lower_char c = CHR ''.'' \<longleftrightarrow> c = CHR ''.''"
proof -
  have "lower_char c = CHR ''.'' \<longleftrightarrow> (of_char (lower_char c) :: nat) = of_char CHR ''.''"
    by (simp only: of_char_eq_iff)
  also have "\<dots> \<longleftrightarrow> (of_char c :: nat) = of_char CHR ''.''"
    by (auto simp: of_char_lower_char Let_def)
  also have "\<dots> \<longleftrightarrow> c = CHR ''.''"
    by (simp only: of_char_eq_iff)
  finally show ?thesis .
qed

lemma lower_char_slash [simp]: "lower_char c = CHR ''/'' \<longleftrightarrow> c = CHR ''/''"
proof -
  have "lower_char c = CHR ''/'' \<longleftrightarrow> (of_char (lower_char c) :: nat) = of_char CHR ''/''"
    by (simp only: of_char_eq_iff)
  also have "\<dots> \<longleftrightarrow> (of_char c :: nat) = of_char CHR ''/''"
    by (auto simp: of_char_lower_char Let_def)
  also have "\<dots> \<longleftrightarrow> c = CHR ''/''"
    by (simp only: of_char_eq_iff)
  finally show ?thesis .
qed

lemma lower_char_idem [simp]: "lower_char (lower_char c) = lower_char c"
proof (rule of_char_eqI [where ?'a = nat])
  show "(of_char (lower_char (lower_char c)) :: nat) = of_char (lower_char c)"
    by (auto simp: of_char_lower_char Let_def)
qed

lemma lower_idem [simp]: "lower (lower s) = lower s"
  by (simp add: lower_def)

subsection \<open>\<open>rfind\<close> and the loop of \<open>splitext\<close> see only where the needle is\<close>

lemma rfind_cong:
  "map (\<lambda>x. x = c) p = map (\<lambda>x. x = c) q \<Longrightarrow> rfind p c = rfind q c"
proof (induction p arbitrary: q)
  case Nil
  then show ?case by simp
next
  case (Cons x xs)
  then obtain y ys where q: "q = y # ys" by (cases q) auto
  with Cons.prems have "(x = c) = (y = c)" and "map (\<lambda>x. x = c) xs = map (\<lambda>x. x = c) ys"
    by simp_all
  with Cons.IH [of ys] q show ?case
    by (simp add: Let_def)
qed

lemma rfind_bounds: "- 1 \<le> rfind p c \<and> rfind p c < int (length p)"
  by (induction p) (auto simp: Let_def)

lemma splitext_loop_result:
  "splitext_loop p i d = None
   \<or> splitext_loop p i d = Some (take (nat d) p, drop (nat d) p)"
proof (induction p i d rule: splitext_loop.induct)
  case (1 p i d)
  then show ?case
    by (subst (1 2) splitext_loop.simps) auto
qed

lemma single_dot_map:
  "(take 1 (drop n p) = ''.'') = (take 1 (drop n (map (\<lambda>x. x = CHR ''.'') p)) = [True])"
proof (cases "drop n p")
  case Nil
  then show ?thesis by (simp add: drop_map)
next
  case (Cons x xs)
  then show ?thesis by (auto simp: drop_map)
qed

lemma splitext_loop_cong:
  assumes "map (\<lambda>x. x = CHR ''.'') p = map (\<lambda>x. x = CHR ''.'') q"
  shows "(splitext_loop p i d = None) = (splitext_loop q i d = None)"
  using assms
proof (induction p i d rule: splitext_loop.induct)
  case (1 p i d)
  have eq: "(take 1 (drop (nat i) p) = ''.'') = (take 1 (drop (nat i) q) = ''.'')"
    by (simp only: single_dot_map "1.prems")
  show ?case
  proof (cases "i < d")
    case False
    then show ?thesis
      by (subst splitext_loop.simps, subst (2) splitext_loop.simps) simp
  next
    case True
    show ?thesis
    proof (cases "take 1 (drop (nat i) p) = ''.''")
      case dot: True
      with eq have dot': "take 1 (drop (nat i) q) = ''.''" by simp
      from "1.IH" [OF True _ "1.prems"] dot
      have "(splitext_loop p (i + 1) d = None) = (splitext_loop q (i + 1) d = None)"
        by simp
      with True dot dot' show ?thesis
        by (subst splitext_loop.simps, subst (2) splitext_loop.simps) simp
    next
      case nodot: False
      with eq have nodot': "take 1 (drop (nat i) q) \<noteq> ''.''" by simp
      from True nodot nodot' show ?thesis
        by (subst splitext_loop.simps, subst (2) splitext_loop.simps) simp
    qed
  qed
qed

subsection \<open>Lower-casing the extension of a filename\<close>

lemma map_is_char_lower_suffix:
  assumes "\<And>x. (lower_char x = c) = (x = c)"
  shows "map (\<lambda>x. x = c) (take n p @ lower (drop n p)) = map (\<lambda>x. x = c) p"
proof -
  have "map (\<lambda>x. x = c) (lower (drop n p)) = map (\<lambda>x. x = c) (drop n p)"
    by (simp add: lower_def assms)
  then have "map (\<lambda>x. x = c) (take n p @ lower (drop n p))
      = map (\<lambda>x. x = c) (take n p) @ map (\<lambda>x. x = c) (drop n p)"
    by simp
  also have "\<dots> = map (\<lambda>x. x = c) (take n p @ drop n p)"
    by (simp only: map_append)
  finally show ?thesis by simp
qed

lemma splitext_cases:
  "splitext p = (p, [])
   \<or> (\<exists>n. n \<le> length p \<and> int n = rfind p CHR ''.'' \<and> rfind p CHR ''/'' < int n
        \<and> splitext_loop p (rfind p CHR ''/'' + 1) (int n) \<noteq> None
        \<and> splitext p = (take n p, drop n p))"
proof -
  define s where "s = rfind p CHR ''/''"
  define d where "d = rfind p CHR ''.''"
  have unfold: "splitext p =
      (case (if s < d then splitext_loop p (s + 1) d else None) of
         Some r \<Rightarrow> r | None \<Rightarrow> (p, []))"
    by (simp add: splitext_def s_def d_def Let_def)
  show ?thesis
  proof (cases "s < d")
    case False
    with unfold show ?thesis by simp
  next
    case True
    show ?thesis
    proof (cases "splitext_loop p (s + 1) d")
      case None
      with unfold True show ?thesis by simp
    next
      case (Some r)
      define n where "n = nat d"
      from True rfind_bounds [of p "CHR ''/''"] have nn: "int n = d"
        by (simp add: n_def s_def)
      from rfind_bounds [of p "CHR ''.''"] nn have le: "n \<le> length p"
        by (simp add: d_def)
      from Some splitext_loop_result [of p "s + 1" d]
      have "r = (take n p, drop n p)"
        by (simp add: n_def)
      with unfold True Some have "splitext p = (take n p, drop n p)"
        by simp
      moreover from Some nn have "splitext_loop p (s + 1) (int n) \<noteq> None"
        by simp
      ultimately have "n \<le> length p \<and> int n = rfind p CHR ''.'' \<and> rfind p CHR ''/'' < int n
        \<and> splitext_loop p (rfind p CHR ''/'' + 1) (int n) \<noteq> None
        \<and> splitext p = (take n p, drop n p)"
        using le nn True unfolding s_def d_def by simp
      then show ?thesis by blast
    qed
  qed
qed

lemma splitext_lowercase_extension:
  "splitext (lowercase_extension name) = (fst (splitext name), lower (snd (splitext name)))"
proof -
  from splitext_cases [of name] show ?thesis
  proof (elim disjE exE conjE)
    assume "splitext name = (name, [])"
    then show ?thesis
      by (simp add: lowercase_extension_def lower_def)
  next
    fix n
    assume le: "n \<le> length name"
      and dot: "int n = rfind name CHR ''.''"
      and sep: "rfind name CHR ''/'' < int n"
      and loop: "splitext_loop name (rfind name CHR ''/'' + 1) (int n) \<noteq> None"
      and sp: "splitext name = (take n name, drop n name)"
    let ?q = "take n name @ lower (drop n name)"
    have q: "lowercase_extension name = ?q"
      by (simp add: lowercase_extension_def sp)
    have dots: "map (\<lambda>x. x = CHR ''.'') ?q = map (\<lambda>x. x = CHR ''.'') name"
      by (rule map_is_char_lower_suffix) simp
    have slashes: "map (\<lambda>x. x = CHR ''/'') ?q = map (\<lambda>x. x = CHR ''/'') name"
      by (rule map_is_char_lower_suffix) simp
    have rd: "rfind ?q CHR ''.'' = int n"
      using rfind_cong [OF dots] dot by simp
    have rs: "rfind ?q CHR ''/'' = rfind name CHR ''/''"
      using rfind_cong [OF slashes] by simp
    have "splitext_loop ?q (rfind name CHR ''/'' + 1) (int n) \<noteq> None"
      using splitext_loop_cong [OF dots, of "rfind name CHR ''/'' + 1" "int n"] loop by simp
    with splitext_loop_result [of ?q "rfind name CHR ''/'' + 1" "int n"]
    have "splitext_loop ?q (rfind name CHR ''/'' + 1) (int n) = Some (take n ?q, drop n ?q)"
      by simp
    with sep have "splitext ?q = (take n ?q, drop n ?q)"
      by (simp add: splitext_def rd rs)
    also have "\<dots> = (take n name, lower (drop n name))"
      using le by simp
    finally show ?thesis
      by (simp add: q sp)
  qed
qed

lemma lowercase_extension_Nil: "(lowercase_extension name = []) = (name = [])"
proof -
  from splitext_cases [of name] show ?thesis
    by (auto simp: lowercase_extension_def lower_def)
qed

lemma validate_image_lowercase_extension:
  "validate_image (file\<lparr>filename := Some (lowercase_extension name)\<rparr>)
     = validate_image (file\<lparr>filename := Some name\<rparr>)"
  by (simp add: validate_image_def splitext_lowercase_extension lowercase_extension_Nil)

subsection \<open>Names that end in a spelling of the extension\<close>

lemma rfind_notin: "c \<notin> set p \<Longrightarrow> rfind p c = - 1"
  by (induction p) (auto simp: Let_def)

lemma rfind_append_found:
  "0 \<le> rfind q c \<Longrightarrow> rfind (p @ q) c = int (length p) + rfind q c"
  by (induction p) (auto simp: Let_def)

lemma rfind_append_notin:
  "c \<notin> set q \<Longrightarrow> rfind (p @ q) c = rfind p c"
  by (induction p) (auto simp: Let_def rfind_notin)

lemma splitext_loop_finds:
  assumes "0 \<le> i" and "i \<le> int k" and "int k < d" and "take 1 (drop k p) \<noteq> ''.''"
  shows "splitext_loop p i d = Some (take (nat d) p, drop (nat d) p)"
  using assms
proof (induction p i d rule: splitext_loop.induct)
  case (1 p i d)
  from "1.prems" have lt: "i < d" by simp
  show ?case
  proof (cases "take 1 (drop (nat i) p) = ''.''")
    case False
    with lt show ?thesis
      by (subst splitext_loop.simps) simp
  next
    case True
    with "1.prems" have "nat i \<noteq> k" by auto
    with "1.prems" have "i + 1 \<le> int k" by simp
    with "1.IH" [OF lt _ _ _ "1.prems"(3,4)] True "1.prems"(1)
    have "splitext_loop p (i + 1) d = Some (take (nat d) p, drop (nat d) p)"
      by simp
    with lt True show ?thesis
      by (subst splitext_loop.simps) simp
  qed
qed

lemma splitext_name_with_extension:
  assumes "CHR ''/'' \<notin> set base" and "\<exists>c \<in> set base. c \<noteq> CHR ''.''"
    and "CHR ''.'' \<notin> set e" and "CHR ''/'' \<notin> set e"
  shows "splitext (dir @ base @ CHR ''.'' # e) = (dir @ base, CHR ''.'' # e)"
proof -
  let ?p = "dir @ base @ CHR ''.'' # e"
  let ?d = "int (length dir + length base)"
  have "rfind (CHR ''.'' # e) CHR ''.'' = 0"
    using assms(3) by (simp add: rfind_notin)
  then have "rfind (base @ CHR ''.'' # e) CHR ''.'' = int (length base)"
    by (simp add: rfind_append_found)
  then have d: "rfind ?p CHR ''.'' = ?d"
    by (simp add: rfind_append_found)
  have "CHR ''/'' \<notin> set (base @ CHR ''.'' # e)"
    using assms(1,4) by simp
  then have s: "rfind ?p CHR ''/'' = rfind dir CHR ''/''"
    by (rule rfind_append_notin)
  from assms(2) obtain j where j: "j < length base" "base ! j \<noteq> CHR ''.''"
    by (auto simp: in_set_conv_nth)
  have "drop (length dir + j) ?p = drop j base @ CHR ''.'' # e"
    using j(1) by simp
  with j have nodot: "take 1 (drop (length dir + j) ?p) \<noteq> ''.''"
    by (simp add: take_Suc_conv_app_nth hd_drop_conv_nth Cons_nth_drop_Suc [symmetric])
  from rfind_bounds [of dir "CHR ''/''"]
  have lo: "0 \<le> rfind dir CHR ''/'' + 1" and up: "rfind dir CHR ''/'' + 1 \<le> int (length dir + j)"
    by simp_all
  from j have lt: "int (length dir + j) < ?d" by simp
  from splitext_loop_finds [OF lo up lt nodot]
  have "splitext_loop ?p (rfind dir CHR ''/'' + 1) ?d = Some (take (nat ?d) ?p, drop (nat ?d) ?p)" .
  moreover have "rfind dir CHR ''/'' < ?d"
    using rfind_bounds [of dir "CHR ''/''"] by simp
  ultimately have "splitext ?p = (take (nat ?d) ?p, drop (nat ?d) ?p)"
    by (simp add: splitext_def d s)
  then show ?thesis by simp
qed

lemma lower_char_not_sep:
  assumes "lower_char c = x" and "x \<noteq> CHR ''.''" and "x \<noteq> CHR ''/''"
  shows "c \<noteq> CHR ''.'' \<and> c \<noteq> CHR ''/''"
  using assms by auto

lemma jpeg_extension_shape:
  assumes "lower ext = ''.jpg'' \<or> lower ext = ''.jpeg''"
  shows "\<exists>e. ext = CHR ''.'' # e \<and> CHR ''.'' \<notin> set e \<and> CHR ''/'' \<notin> set e"
  using assms
  by (auto simp: lower_def map_eq_Cons_conv dest: lower_char_not_sep)

lemma validate_image_any_case:
  assumes "content_type file = Some ''image/jpeg'' \<or> content_type file = Some ''image/jpg''"
    and "CHR ''/'' \<notin> set base" and "\<exists>c \<in> set base. c \<noteq> CHR ''.''"
    and "lower ext = ''.jpg'' \<or> lower ext = ''.jpeg''"
  shows "validate_image (file\<lparr>filename := Some (dir @ base @ ext)\<rparr>) = Inr ()"
proof -
  from jpeg_extension_shape [OF assms(4)] obtain e
    where e: "ext = CHR ''.'' # e" "CHR ''.'' \<notin> set e" "CHR ''/'' \<notin> set e"
    by blast
  have "splitext (dir @ base @ ext) = (dir @ base, ext)"
    unfolding e(1) using assms(2,3) e(2,3) by (rule splitext_name_with_extension)
  with assms(1,4) show ?thesis
    by (intro validate_image_accepts [where name = "dir @ base @ ext"]) simp_all
qed

subsection \<open>The extension check ignores letter case\<close>

text \<open>
  C9. \<open>validate_image\<close> accepts a filename exactly when it accepts the same filename
  with its extension in lower case, and that filename has the lower-cased extension as
  its extension. So, under an accepted content type, every name \<open>dir @ base @ ext\<close> is
  accepted whose \<open>ext\<close> spells \<open>.jpg\<close> or \<open>.jpeg\<close> in any letter case and whose
  \<open>base\<close> has no \<open>/\<close> and some character other than the dot.
\<close>

theorem extension_check_case_insensitive:
  "((validate_image (upload\<lparr>filename := Some name\<rparr>) = Inr ())
      = (validate_image (upload\<lparr>filename := Some (lowercase_extension name)\<rparr>) = Inr ()))
   \<and> splitext (lowercase_extension name) = (fst (splitext name), lower (snd (splitext name)))
   \<and> ((content_type upload = Some ''image/jpeg'' \<or> content_type upload = Some ''image/jpg'')
        \<and> CHR ''/'' \<notin> set base \<and> (\<exists>c \<in> set base. c \<noteq> CHR ''.'')
        \<and> (lower ext = ''.jpg'' \<or> lower ext = ''.jpeg'')
       \<longrightarrow> validate_image (upload\<lparr>filename := Some (dir @ base @ ext)\<rparr>) = Inr ())"
proof (intro conjI impI)
  show "(validate_image (upload\<lparr>filename := Some name\<rparr>) = Inr ())
      = (validate_image (upload\<lparr>filename := Some (lowercase_extension name)\<rparr>) = Inr ())"
    by (simp only: validate_image_lowercase_extension)
next
  show "splitext (lowercase_extension name) = (fst (splitext name), lower (snd (splitext name)))"
    by (rule splitext_lowercase_extension)
next
  assume a: "(content_type upload = Some ''image/jpeg'' \<or> content_type upload = Some ''image/jpg'')
        \<and> CHR ''/'' \<notin> set base \<and> (\<exists>c \<in> set base. c \<noteq> CHR ''.'')
        \<and> (lower ext = ''.jpg'' \<or> lower ext = ''.jpeg'')"
  then show "validate_image (upload\<lparr>filename := Some (dir @ base @ ext)\<rparr>) = Inr ()"
    by (intro validate_image_any_case) simp_all
qed

theorem extension_check_case_insensitive_witness:
  "lowercase_extension ''My.Photo.JPG'' = ''My.Photo.jpg''
   \<and> validate_image (test_jpg\<lparr>filename := Some ''My.Photo.JPG''\<rparr>) = Inr ()
   \<and> validate_image (test_jpg\<lparr>filename := Some ''My.Photo.jpg''\<rparr>) = Inr ()
   \<and> (content_type test_jpg = Some ''image/jpeg'' \<or> content_type test_jpg = Some ''image/jpg'')
   \<and> CHR ''/'' \<notin> set ''scan'' \<and> (\<exists>c \<in> set ''scan''. c \<noteq> CHR ''.'')
   \<and> (lower ''.JpEg'' = ''.jpg'' \<or> lower ''.JpEg'' = ''.jpeg'')
   \<and> validate_image (test_jpg\<lparr>filename := Some ''uploads/scan.JpEg''\<rparr>) = Inr ()"
proof -
  have l: "lowercase_extension ''My.Photo.JPG'' = ''My.Photo.jpg''"
    by code_simp
  have v: "validate_image (test_jpg\<lparr>filename := Some ''My.Photo.jpg''\<rparr>) = Inr ()"
    by (rule validate_image_accepts [where name = "''My.Photo.jpg''"])
       (simp_all add: test_jpg_def, code_simp)
  have h1: "content_type test_jpg = Some ''image/jpeg'' \<or> content_type test_jpg = Some ''image/jpg''"
    by (simp add: test_jpg_def)
  have h2: "CHR ''/'' \<notin> set ''scan''" "\<exists>c \<in> set ''scan''. c \<noteq> CHR ''.''"
    by simp_all
  have h3: "lower ''.JpEg'' = ''.jpg'' \<or> lower ''.JpEg'' = ''.jpeg''"
    by code_simp
  have n: "''uploads/'' @ ''scan'' @ ''.JpEg'' = ''uploads/scan.JpEg''"
    by simp
  show ?thesis
    using l v h1 h2 h3
      extension_check_case_insensitive [where upload = test_jpg and name = "''My.Photo.JPG''"
        and dir = "''uploads/''" and base = "''scan''" and ext = "''.JpEg''"]
    unfolding n by simp
qed

end
